theory Spec2Isabelle
  imports Complex_Main
begin

section \<open>Entity model (ReportEditor.tsx, lines 7-46)\<close>

text \<open>
  The four interfaces of the editor become records. Isabelle record fields are global
  constants, so the field \<open>id\<close> (and the other names shared between interfaces) carries
  the name of its interface as a prefix. JavaScript numbers that hold a clock reading
  (\<open>Date.now()\<close>, milliseconds) are natural numbers.
\<close>

datatype SnagPriority = Critical | High | Medium | Low

datatype SnagStatus = Open | In_progress | Resolved

datatype ReportStatus = Working | Complete | Archived

record Photo =
  photo_id :: string
  photo_url :: string
  photo_name :: "string option"

record SnagItem =
  snag_id :: string
  location :: string
  description :: string
  priority :: SnagPriority
  snag_status :: SnagStatus
  photos :: "Photo list"
  snag_createdAt :: nat

record Room =
  room_id :: string
  room_name :: string
  snags :: "SnagItem list"

record SnaggingReport =
  report_id :: string
  propertyAddress :: string
  developerName :: string
  clientName :: string
  plotNumber :: string
  inspectionDate :: string
  report_status :: ReportStatus
  rooms :: "Room list"
  coverPhoto :: "Photo option"
  createdAt :: nat
  lastModified :: nat

text \<open>
  \<open>Partial<SnagItem>\<close>: every field of a snag may be present or absent in a patch.
\<close>

record SnagUpdates =
  upd_id :: "string option"
  upd_location :: "string option"
  upd_description :: "string option"
  upd_priority :: "SnagPriority option"
  upd_status :: "SnagStatus option"
  upd_photos :: "Photo list option"
  upd_createdAt :: "nat option"

definition no_updates :: SnagUpdates where
  "no_updates = \<lparr>upd_id = None, upd_location = None, upd_description = None,
     upd_priority = None, upd_status = None, upd_photos = None, upd_createdAt = None\<rparr>"

subsection \<open>Template literals\<close>

text \<open>
  \<open>`${n}`\<close> for a non-negative integer \<open>n\<close> prints its decimal digits.
\<close>

definition digit_char :: "nat \<Rightarrow> char" where
  "digit_char d = ''0123456789'' ! d"

fun decimal :: "nat \<Rightarrow> string" where
  "decimal n = (if n < 10 then [digit_char n] else decimal (n div 10) @ [digit_char (n mod 10)])"

declare decimal.simps [simp del]

subsection \<open>The default room catalog (App.tsx, lines 15-36)\<close>

definition DEFAULT_ROOMS :: "string list" where
  "DEFAULT_ROOMS =
    [''Front Elevation'', ''Rear Elevation'', ''Driveway/Parking'', ''Garden/Landscaping'',
     ''Hallway/Entrance'', ''Living Room'', ''Kitchen'', ''Dining Room'', ''Utility Room'',
     ''WC/Cloakroom'', ''Landing'', ''Master Bedroom'', ''En-Suite'', ''Bedroom 2'',
     ''Bedroom 3'', ''Bedroom 4'', ''Family Bathroom'', ''Garage'', ''Loft Space'',
     ''General/Miscellaneous'']"

text \<open>
  \<open>DEFAULT_ROOMS.map((room, idx) => ({...room, id: `room-${idx}-${now}`}))\<close>:
  every catalog entry has an empty snag list.
\<close>

definition default_rooms :: "nat \<Rightarrow> Room list" where
  "default_rooms now =
     map (\<lambda>(idx, nm). \<lparr>room_id = ''room-'' @ decimal idx @ ''-'' @ decimal now,
                         room_name = nm, snags = []\<rparr>)
         (zip [0 ..< length DEFAULT_ROOMS] DEFAULT_ROOMS)"

section \<open>App.tsx: the report collection\<close>

text \<open>
  \<open>handleNewReport\<close> reads the clock once (\<open>now\<close>) and takes the date part of
  \<open>new Date().toISOString()\<close>, which is a parameter here (\<open>today\<close>).
\<close>

definition newReport :: "nat \<Rightarrow> string \<Rightarrow> SnaggingReport" where
  "newReport now today =
     \<lparr>report_id = ''report-'' @ decimal now,
      propertyAddress = '''', developerName = '''', clientName = '''', plotNumber = '''',
      inspectionDate = today,
      report_status = Working,
      rooms = default_rooms now,
      coverPhoto = None,
      createdAt = now,
      lastModified = now\<rparr>"

definition handleNewReport :: "nat \<Rightarrow> string \<Rightarrow> SnaggingReport list \<Rightarrow> SnaggingReport list" where
  "handleNewReport now today prev = prev @ [newReport now today]"

definition handleStatusChange ::
    "string \<Rightarrow> ReportStatus \<Rightarrow> SnaggingReport list \<Rightarrow> SnaggingReport list" where
  "handleStatusChange ident st prev =
     map (\<lambda>r. if report_id r = ident then r\<lparr>report_status := st\<rparr> else r) prev"

definition handleSaveReport :: "SnaggingReport \<Rightarrow> SnaggingReport list \<Rightarrow> SnaggingReport list" where
  "handleSaveReport updatedReport prev =
     map (\<lambda>r. if report_id r = report_id updatedReport then updatedReport else r) prev"

section \<open>ReportEditor.tsx: the update engine\<close>

text \<open>
  The editor keeps one report in its state (\<open>currentReport\<close>). Each handler passes an
  updater \<open>prev => ...\<close> to \<open>setCurrentReport\<close>; the model of a handler is that updater,
  a function from the previous report to the next one.
\<close>

text \<open>
  The editor starts from the report it is given. A report without rooms gets the
  catalog's rooms; there \<open>Date.now()\<close> is called inside the \<open>map\<close>, once per room, so
  the clock is a function from the room's index to the reading of that call. (The
  editor's own copy of \<open>DEFAULT_ROOMS\<close> is the same list as the one of App.tsx.)
\<close>

definition initialReport :: "(nat \<Rightarrow> nat) \<Rightarrow> SnaggingReport \<Rightarrow> SnaggingReport" where
  "initialReport clock report =
     (if rooms report = []
      then report\<lparr>rooms :=
             map (\<lambda>(idx, nm). \<lparr>room_id = ''room-'' @ decimal idx @ ''-'' @ decimal (clock idx),
                                 room_name = nm, snags = []\<rparr>)
                 (zip [0 ..< length DEFAULT_ROOMS] DEFAULT_ROOMS)\<rparr>
      else report)"

definition handleSave :: "nat \<Rightarrow> SnaggingReport \<Rightarrow> SnaggingReport" where
  "handleSave now currentReport = currentReport\<lparr>lastModified := now\<rparr>"

text \<open>
  \<open>handleAddSnag\<close> reads the clock twice: once for the id, once for \<open>createdAt\<close>.
\<close>

definition newSnag :: "nat \<Rightarrow> nat \<Rightarrow> SnagItem" where
  "newSnag idNow createdNow =
     \<lparr>snag_id = ''snag-'' @ decimal idNow,
      location = '''',
      description = '''',
      priority = Medium,
      snag_status = Open,
      photos = [],
      snag_createdAt = createdNow\<rparr>"

definition handleAddSnag :: "string \<Rightarrow> nat \<Rightarrow> nat \<Rightarrow> SnaggingReport \<Rightarrow> SnaggingReport" where
  "handleAddSnag roomId idNow createdNow prev =
     prev\<lparr>rooms :=
       map (\<lambda>room. if room_id room = roomId
                    then room\<lparr>snags := snags room @ [newSnag idNow createdNow]\<rparr>
                    else room)
           (rooms prev)\<rparr>"

text \<open>\<open>{...snag, ...updates}\<close>: a field present in the patch replaces the snag's.\<close>

definition merge_updates :: "SnagItem \<Rightarrow> SnagUpdates \<Rightarrow> SnagItem" where
  "merge_updates snag updates =
     \<lparr>snag_id = (case upd_id updates of None \<Rightarrow> snag_id snag | Some v \<Rightarrow> v),
      location = (case upd_location updates of None \<Rightarrow> location snag | Some v \<Rightarrow> v),
      description = (case upd_description updates of None \<Rightarrow> description snag | Some v \<Rightarrow> v),
      priority = (case upd_priority updates of None \<Rightarrow> priority snag | Some v \<Rightarrow> v),
      snag_status = (case upd_status updates of None \<Rightarrow> snag_status snag | Some v \<Rightarrow> v),
      photos = (case upd_photos updates of None \<Rightarrow> photos snag | Some v \<Rightarrow> v),
      snag_createdAt = (case upd_createdAt updates of None \<Rightarrow> snag_createdAt snag | Some v \<Rightarrow> v)\<rparr>"

definition handleUpdateSnag ::
    "string \<Rightarrow> string \<Rightarrow> SnagUpdates \<Rightarrow> SnaggingReport \<Rightarrow> SnaggingReport" where
  "handleUpdateSnag roomId snagId updates prev =
     prev\<lparr>rooms :=
       map (\<lambda>room. if room_id room = roomId
                    then room\<lparr>snags :=
                           map (\<lambda>snag. if snag_id snag = snagId
                                        then merge_updates snag updates else snag)
                               (snags room)\<rparr>
                    else room)
           (rooms prev)\<rparr>"

definition handleDeleteSnag :: "string \<Rightarrow> string \<Rightarrow> SnaggingReport \<Rightarrow> SnaggingReport" where
  "handleDeleteSnag roomId snagId prev =
     prev\<lparr>rooms :=
       map (\<lambda>room. if room_id room = roomId
                    then room\<lparr>snags := filter (\<lambda>s. snag_id s \<noteq> snagId) (snags room)\<rparr>
                    else room)
           (rooms prev)\<rparr>"

text \<open>
  \<open>handlePhotoUpload\<close> starts one \<open>FileReader\<close> per file. When a reader finishes, its
  \<open>onloadend\<close> callback builds the photo and calls \<open>handleUpdateSnag\<close> with a complete
  new photo list. That list is computed from \<open>currentReport\<close>, the constant bound in the
  render that created the handler, and not from the \<open>prev\<close> argument of the updater.
  A finished read is a \<open>LoadedFile\<close>: the file's name, the data URL in \<open>reader.result\<close>,
  the clock reading and the random suffix \<open>Math.random().toString(36).substr(2, 9)\<close>
  used for the id.
\<close>

record LoadedFile =
  file_name :: string
  file_result :: string
  load_now :: nat
  load_random :: string

definition photo_of :: "LoadedFile \<Rightarrow> Photo" where
  "photo_of file =
     \<lparr>photo_id = ''photo-'' @ decimal (load_now file) @ ''-'' @ load_random file,
      photo_url = file_result file,
      photo_name = Some (file_name file)\<rparr>"

text \<open>
  \<open>currentReport.rooms.find(r => r.id === roomId)?.snags.find(s => s.id === snagId)?.photos || []\<close>
\<close>

definition find_photos :: "SnaggingReport \<Rightarrow> string \<Rightarrow> string \<Rightarrow> Photo list" where
  "find_photos currentReport roomId snagId =
     (case find (\<lambda>r. room_id r = roomId) (rooms currentReport) of
        None \<Rightarrow> []
      | Some room \<Rightarrow>
          (case find (\<lambda>s. snag_id s = snagId) (snags room) of
             None \<Rightarrow> []
           | Some snag \<Rightarrow> photos snag))"

definition onloadend ::
    "SnaggingReport \<Rightarrow> string \<Rightarrow> string \<Rightarrow> LoadedFile \<Rightarrow> SnaggingReport \<Rightarrow> SnaggingReport" where
  "onloadend currentReport roomId snagId file prev =
     handleUpdateSnag roomId snagId
       (no_updates\<lparr>upd_photos := Some (find_photos currentReport roomId snagId @ [photo_of file])\<rparr>)
       prev"

text \<open>
  The completions of one batch, in the order in which the readers finish, each applied to
  the state left by the one before.
\<close>

definition handlePhotoUpload ::
    "SnaggingReport \<Rightarrow> string \<Rightarrow> string \<Rightarrow> LoadedFile list \<Rightarrow> SnaggingReport \<Rightarrow> SnaggingReport" where
  "handlePhotoUpload currentReport roomId snagId files prev =
     fold (onloadend currentReport roomId snagId) files prev"

section \<open>Aggregate counts\<close>

text \<open>
  ReportEditor.tsx, lines 263-265: three \<open>reduce\<close> calls over the rooms, recomputed at
  every render.
\<close>

definition totalSnags :: "SnaggingReport \<Rightarrow> nat" where
  "totalSnags currentReport =
     foldl (\<lambda>sum room. sum + length (snags room)) 0 (rooms currentReport)"

definition openSnags :: "SnaggingReport \<Rightarrow> nat" where
  "openSnags currentReport =
     foldl (\<lambda>sum room. sum + length (filter (\<lambda>s. snag_status s = Open) (snags room))) 0
       (rooms currentReport)"

definition criticalSnags :: "SnaggingReport \<Rightarrow> nat" where
  "criticalSnags currentReport =
     foldl (\<lambda>sum room. sum + length (filter (\<lambda>s. priority s = Critical) (snags room))) 0
       (rooms currentReport)"

text \<open>App.tsx, lines 118-129: the projection shown on the dashboard.\<close>

record SavedReport =
  saved_id :: string
  saved_propertyAddress :: string
  saved_developerName :: string
  saved_clientName :: string
  saved_plotNumber :: string
  saved_inspectionDate :: string
  saved_lastModified :: nat
  saved_status :: ReportStatus
  saved_totalSnags :: nat
  saved_openSnags :: nat

definition dashboardReports :: "SnaggingReport list \<Rightarrow> SavedReport list" where
  "dashboardReports reports =
     map (\<lambda>r. \<lparr>saved_id = report_id r,
                saved_propertyAddress = propertyAddress r,
                saved_developerName = developerName r,
                saved_clientName = clientName r,
                saved_plotNumber = plotNumber r,
                saved_inspectionDate = inspectionDate r,
                saved_lastModified = lastModified r,
                saved_status = report_status r,
                saved_totalSnags = foldl (\<lambda>sum room. sum + length (snags room)) 0 (rooms r),
                saved_openSnags =
                  foldl (\<lambda>sum room. sum + length (filter (\<lambda>s. snag_status s = Open) (snags room))) 0
                    (rooms r)\<rparr>)
         reports"

subsection \<open>Reference notions for the statements\<close>

text \<open>All snags of a report, room by room, each room's snags in their own order.\<close>

definition all_snags :: "SnaggingReport \<Rightarrow> SnagItem list" where
  "all_snags r = concat (map snags (rooms r))"

text \<open>A sequence of snag edits, applied from left to right.\<close>

datatype edit =
    AddSnag string nat nat
  | UpdateSnag string string SnagUpdates
  | DeleteSnag string string

fun apply_edit :: "edit \<Rightarrow> SnaggingReport \<Rightarrow> SnaggingReport" where
  "apply_edit (AddSnag roomId idNow createdNow) r = handleAddSnag roomId idNow createdNow r"
| "apply_edit (UpdateSnag roomId snagId updates) r = handleUpdateSnag roomId snagId updates r"
| "apply_edit (DeleteSnag roomId snagId) r = handleDeleteSnag roomId snagId r"

definition apply_edits :: "edit list \<Rightarrow> SnaggingReport \<Rightarrow> SnaggingReport" where
  "apply_edits es r = fold apply_edit es r"

text \<open>
  \<open>addSnag\<close> as the specification words it: the snag is appended to the named room, and
  the operation fails with \<open>NotFound\<close> when no room carries the id.
\<close>

datatype error = NotFound

definition spec_addSnag ::
    "string \<Rightarrow> nat \<Rightarrow> nat \<Rightarrow> SnaggingReport \<Rightarrow> error + SnaggingReport" where
  "spec_addSnag roomId idNow createdNow r =
     (if list_ex (\<lambda>room. room_id room = roomId) (rooms r)
      then Inr (r\<lparr>rooms :=
                  map (\<lambda>room. if room_id room = roomId
                               then room\<lparr>snags := snags room @ [newSnag idNow createdNow]\<rparr>
                               else room)
                      (rooms r)\<rparr>)
      else Inl NotFound)"

section \<open>Document generation (ReportEditor.tsx, handleExportPDF)\<close>

text \<open>
  The document is built by calls on a jsPDF object: drawing calls, calls that set the
  colour and the font, and \<open>addPage\<close>. The library is not part of the repository, so the
  document is modelled as the sequence of calls made on it, in order. Coordinates are in
  millimetres. The cursor \<open>y\<close> only ever holds sums of the integer constants of the code.
\<close>

datatype pdf_call =
    SetFillColor nat nat nat
  | Rect real real real real string
  | SetTextColor nat nat nat
  | SetFontSize nat
  | SetFont string string
  | Text string real real
  | Circle real real real string
  | AddPage

text \<open>
  jsPDF draws every call on the page that is current when the call is made, and
  \<open>addPage\<close> appends a page and makes it current. The pages of a call sequence:
\<close>

fun pages_of :: "pdf_call list \<Rightarrow> pdf_call list list" where
  "pages_of [] = [[]]"
| "pages_of (AddPage # cs) = [] # pages_of cs"
| "pages_of (c # cs) = (c # hd (pages_of cs)) # tl (pages_of cs)"

text \<open>
  The page size comes from \<open>new jsPDF('p', 'mm', 'a4')\<close>. In jsPDF the A4 format is
  595.28 by 841.89 points and one millimetre is 72 / 25.4 points. The generator takes the
  two sizes as parameters; these are the values it receives.
\<close>

definition a4_pageWidth :: real where
  "a4_pageWidth = 595.28 / (72 / 25.4)"

definition a4_pageHeight :: real where
  "a4_pageHeight = 841.89 / (72 / 25.4)"

definition margin :: real where
  "margin = 15"

subsection \<open>Strings\<close>

text \<open>\<open>s || d\<close> on strings: the empty string is falsy.\<close>

definition or_else :: "string \<Rightarrow> string \<Rightarrow> string" where
  "or_else s d = (if s = [] then d else s)"

text \<open>The string values of the union types \<open>SnagPriority\<close> and \<open>SnagStatus\<close>.\<close>

fun priority_str :: "SnagPriority \<Rightarrow> string" where
  "priority_str Critical = ''critical''"
| "priority_str High = ''high''"
| "priority_str Medium = ''medium''"
| "priority_str Low = ''low''"

fun status_str :: "SnagStatus \<Rightarrow> string" where
  "status_str Open = ''open''"
| "status_str In_progress = ''in-progress''"
| "status_str Resolved = ''resolved''"

text \<open>
  \<open>s.replace('-', ' ')\<close> with a string pattern replaces the first occurrence only.
\<close>

fun replace_first :: "char \<Rightarrow> char \<Rightarrow> string \<Rightarrow> string" where
  "replace_first a b [] = []"
| "replace_first a b (c # cs) = (if c = a then b # cs else c # replace_first a b cs)"

text \<open>
  \<open>toUpperCase\<close> on the letters a-z; the generator applies it to the values above only.
\<close>

definition upper_char :: "char \<Rightarrow> char" where
  "upper_char c =
     (case map_of (zip ''abcdefghijklmnopqrstuvwxyz'' ''ABCDEFGHIJKLMNOPQRSTUVWXYZ'') c of
        None \<Rightarrow> c
      | Some u \<Rightarrow> u)"

definition toUpperCase :: "string \<Rightarrow> string" where
  "toUpperCase s = map upper_char s"

subsection \<open>The title page\<close>

text \<open>
  Lines 276-318. The result is the calls made and the value of \<open>y\<close> afterwards.
\<close>

definition title_page :: "real \<Rightarrow> SnaggingReport \<Rightarrow> pdf_call list \<times> real" where
  "title_page pageWidth currentReport =
     (let c0 = [SetFillColor 0 45 98,
                Rect 0 0 pageWidth 60 ''F'',
                SetTextColor 255 255 255,
                SetFontSize 24,
                Text ''Snagging List Report'' margin 35,
                SetFontSize 12,
                SetTextColor 212 184 138,
                Text ''Professional New Build Defects Report'' margin 45,
                SetTextColor 0 0 0,
                SetFontSize 14];
          y = 80;
          c1 = [SetFontSize 12,
                SetFont ''helvetica'' ''bold'',
                Text ''Property Details'' margin y];
          y = y + 10;
          c2 = [SetFont ''helvetica'' ''normal'',
                Text (''Address: '' @ or_else (propertyAddress currentReport) ''Not specified'') margin y];
          y = y + 8;
          c3 = [Text (''Plot Number: '' @ or_else (plotNumber currentReport) ''Not specified'') margin y];
          y = y + 8;
          c4 = [Text (''Client: '' @ or_else (clientName currentReport) ''Not specified'') margin y];
          y = y + 8;
          c5 = [Text (''Developer: '' @ or_else (developerName currentReport) ''Not specified'') margin y];
          y = y + 8;
          c6 = [Text (''Inspection Date: '' @ or_else (inspectionDate currentReport) ''Not specified'') margin y];
          y = y + 15;
          c7 = [SetFont ''helvetica'' ''bold'',
                Text ''Summary'' margin y];
          y = y + 10;
          c8 = [SetFont ''helvetica'' ''normal'',
                Text (''Total Snags: '' @ decimal (totalSnags currentReport)) margin y];
          y = y + 8;
          c9 = [Text (''Open Snags: '' @ decimal (openSnags currentReport)) margin y];
          y = y + 8;
          c10 = [Text (''Critical Items: '' @ decimal (criticalSnags currentReport)) margin y];
          y = y + 15
      in (c0 @ c1 @ c2 @ c3 @ c4 @ c5 @ c6 @ c7 @ c8 @ c9 @ c10, y))"

subsection \<open>Snags by room\<close>

fun priorityColors :: "SnagPriority \<Rightarrow> nat \<times> nat \<times> nat" where
  "priorityColors Critical = (220, 38, 38)"
| "priorityColors High = (245, 158, 11)"
| "priorityColors Medium = (59, 130, 246)"
| "priorityColors Low = (34, 197, 94)"

definition summary_line :: "SnagItem \<Rightarrow> string" where
  "summary_line snag =
     or_else (location snag) ''No location'' @ '': '' @ or_else (description snag) ''No description''"

definition detail_line :: "SnagItem \<Rightarrow> string" where
  "detail_line snag =
     ''Priority: '' @ toUpperCase (priority_str (priority snag)) @ '' | Status: '' @
     toUpperCase (replace_first CHR ''-'' CHR '' '' (status_str (snag_status snag)))"

text \<open>
  Lines 345-360: the calls that draw one snag with the cursor at \<open>y\<close>: the marker, the
  summary line at \<open>y\<close> and the second line at \<open>y + 6\<close>.
\<close>

definition snag_entry :: "SnagItem \<Rightarrow> real \<Rightarrow> pdf_call list" where
  "snag_entry snag y =
     [case priorityColors (priority snag) of (r, g, b) \<Rightarrow> SetFillColor r g b,
      Circle (margin + 2) (y - 1) 2 ''F'',
      Text (summary_line snag) (margin + 8) y,
      SetTextColor 100 100 100,
      Text (detail_line snag) (margin + 8) (y + 6),
      SetTextColor 0 0 0]"

text \<open>One iteration of the inner loop (lines 339-361).\<close>

definition draw_snag :: "real \<Rightarrow> SnagItem \<Rightarrow> real \<Rightarrow> pdf_call list \<times> real" where
  "draw_snag pageHeight snag y =
     (let (brk, y) = (if y > pageHeight - 30 then ([AddPage], margin) else ([], y))
      in (brk @ snag_entry snag y, y + 6 + 10))"

fun draw_snags :: "real \<Rightarrow> SnagItem list \<Rightarrow> real \<Rightarrow> pdf_call list \<times> real" where
  "draw_snags pageHeight [] y = ([], y)"
| "draw_snags pageHeight (snag # rest) y =
     (let (c1, y) = draw_snag pageHeight snag y;
          (c2, y) = draw_snags pageHeight rest y
      in (c1 @ c2, y))"

text \<open>One iteration of the outer loop (lines 321-363); an empty room is skipped.\<close>

definition draw_room :: "real \<Rightarrow> Room \<Rightarrow> real \<Rightarrow> pdf_call list \<times> real" where
  "draw_room pageHeight room y =
     (if snags room = [] then ([], y)
      else
        let (brk, y) = (if y > pageHeight - 40 then ([AddPage], margin) else ([], y));
            heading = [SetFont ''helvetica'' ''bold'',
                       SetFontSize 14,
                       SetTextColor 0 61 130,
                       Text (room_name room) margin y];
            y = y + 8;
            body = [SetFont ''helvetica'' ''normal'',
                    SetFontSize 10,
                    SetTextColor 0 0 0];
            (entries, y) = draw_snags pageHeight (snags room) y;
            y = y + 5
        in (brk @ heading @ body @ entries, y))"

fun draw_rooms :: "real \<Rightarrow> Room list \<Rightarrow> real \<Rightarrow> pdf_call list \<times> real" where
  "draw_rooms pageHeight [] y = ([], y)"
| "draw_rooms pageHeight (room # rest) y =
     (let (c1, y) = draw_room pageHeight room y;
          (c2, y) = draw_rooms pageHeight rest y
      in (c1 @ c2, y))"

text \<open>
  \<open>handleExportPDF\<close> returns at once when the editor's root element is not mounted
  (\<open>reportRef.current\<close> is null). Otherwise it builds the document; the final
  \<open>pdf.save\<close>, which names and writes the file, is not part of the document.
\<close>

definition handleExportPDF ::
    "bool \<Rightarrow> real \<Rightarrow> real \<Rightarrow> SnaggingReport \<Rightarrow> pdf_call list option" where
  "handleExportPDF mounted pageWidth pageHeight currentReport =
     (if \<not> mounted then None
      else
        let (cover, y) = title_page pageWidth currentReport;
            (body, y) = draw_rooms pageHeight (rooms currentReport) y
        in Some (cover @ body))"

subsection \<open>Reference notions for the statements about the document\<close>

text \<open>The calls that draw a room's heading with the cursor at \<open>y\<close> (lines 329-337).\<close>

definition heading_calls :: "Room \<Rightarrow> real \<Rightarrow> pdf_call list" where
  "heading_calls room y =
     [SetFont ''helvetica'' ''bold'', SetFontSize 14, SetTextColor 0 61 130,
      Text (room_name room) margin y,
      SetFont ''helvetica'' ''normal'', SetFontSize 10, SetTextColor 0 0 0]"

text \<open>The texts drawn at horizontal position \<open>x0\<close>, in the order of the calls.\<close>

fun line_at :: "real \<Rightarrow> pdf_call \<Rightarrow> string list" where
  "line_at x0 (Text t x y) = (if x = x0 then [t] else [])"
| "line_at x0 _ = []"

definition lines_at :: "real \<Rightarrow> pdf_call list \<Rightarrow> string list" where
  "lines_at x0 cs = concat (map (line_at x0) cs)"

text \<open>All texts of a call sequence.\<close>

fun text_of :: "pdf_call \<Rightarrow> string list" where
  "text_of (Text t x y) = [t]"
| "text_of _ = []"

definition texts_of :: "pdf_call list \<Rightarrow> string list" where
  "texts_of cs = concat (map text_of cs)"

text \<open>
  The calls that belong to a snag entry: a marker, or a text in the entry column.
\<close>

fun is_entry_call :: "pdf_call \<Rightarrow> bool" where
  "is_entry_call (Circle cx cy cr st) = True"
| "is_entry_call (Text t x y) = (x = margin + 8)"
| "is_entry_call _ = False"

text \<open>
  jsPDF splits the string given to \<open>text\<close> at its line breaks (\<open>\r\n\<close>, \<open>\r\<close> or \<open>\n\<close>)
  and draws the pieces on successive lines, one line height apart, the first at \<open>y\<close>.
  At the entries' font size of 10 points and jsPDF's line height factor of 1.15 the line
  height is \<open>entry_lineHeight\<close> millimetres.
\<close>

fun split_lines :: "string \<Rightarrow> string list" where
  "split_lines [] = [[]]"
| "split_lines (c # cs) =
     (if c = CHR 0x0D
      then (case cs of
              [] \<Rightarrow> [] # split_lines cs
            | d # ds \<Rightarrow> if d = CHR 0x0A then [] # split_lines ds else [] # split_lines cs)
      else if c = CHR 0x0A then [] # split_lines cs
      else (case split_lines cs of
              [] \<Rightarrow> [[c]]
            | l # ls \<Rightarrow> (c # l) # ls))"



text \<open>
  The lower end of an entry drawn with the cursor at \<open>y\<close>: the cursor after the entry
  (\<open>y + 6 + 10\<close>), or the last line of the summary text where that is lower.
\<close>

definition entry_bottom :: "real \<Rightarrow> SnagItem \<Rightarrow> real \<Rightarrow> real" where
  "entry_bottom lineHeight snag y =
     max (y + 6 + 10) (y + real (length (split_lines (summary_line snag)) - 1) * lineHeight)"

text \<open>
  A page holds only whole entries, from \<open>lo\<close> downwards, when it is made of calls that
  do not belong to an entry and of complete entries such that each entry has its cursor
  at \<open>lo\<close> or lower, ends on the page, and is followed only by entries that start at its
  lower end or lower. So no entry is drawn in part, none runs past the bottom edge, and
  no two entries of the page overlap.
\<close>

inductive whole_entries :: "real \<Rightarrow> real \<Rightarrow> real \<Rightarrow> pdf_call list \<Rightarrow> bool"
  for pageHeight lineHeight where
  whole_nil: "whole_entries pageHeight lineHeight lo []"
| whole_other: "\<not> is_entry_call c \<Longrightarrow> whole_entries pageHeight lineHeight lo cs \<Longrightarrow>
     whole_entries pageHeight lineHeight lo (c # cs)"
| whole_entry: "lo \<le> y \<Longrightarrow> entry_bottom lineHeight snag y \<le> pageHeight \<Longrightarrow>
     whole_entries pageHeight lineHeight (entry_bottom lineHeight snag y) cs \<Longrightarrow>
     whole_entries pageHeight lineHeight lo (snag_entry snag y @ cs)"


text \<open>
  The number of entries that page 1 holds when the report has a single room: none when
  the heading itself moves to page 2, else the entries at 186, 202, ... that are not
  beyond \<open>pageHeight - 30\<close>.
\<close>

definition first_page_capacity :: "real \<Rightarrow> nat" where
  "first_page_capacity pageHeight =
     (if pageHeight < 218 then 0 else nat \<lfloor>(pageHeight - 200) / 16\<rfloor>)"

subsection \<open>Concrete inputs\<close>

definition example_report :: SnaggingReport where
  "example_report =
     \<lparr>report_id = ''report-5'',
      propertyAddress = ''1 High Street'', developerName = '''', clientName = '''',
      plotNumber = ''12'', inspectionDate = ''2024-01-01'',
      report_status = Working,
      rooms = [\<lparr>room_id = ''room-0-5'', room_name = ''Front Elevation'', snags = []\<rparr>,
               \<lparr>room_id = ''room-6-5'', room_name = ''Kitchen'', snags = [newSnag 1000 1000]\<rparr>],
      coverPhoto = None,
      createdAt = 5,
      lastModified = 5\<rparr>"

definition file_a :: LoadedFile where
  "file_a = \<lparr>file_name = ''a.jpg'', file_result = ''data:image/jpeg;base64,AAAA'',
              load_now = 2000, load_random = ''k3j9x0q1z''\<rparr>"

definition file_b :: LoadedFile where
  "file_b = \<lparr>file_name = ''b.jpg'', file_result = ''data:image/jpeg;base64,BBBB'',
              load_now = 2000, load_random = ''p0w8m2c7d''\<rparr>"

text \<open>
  The end-to-end example: a new report opened in the editor, one snag added to the
  Kitchen (the room at index 6 of the catalog), then its four fields set.
\<close>

definition kitchen_example ::
    "nat \<Rightarrow> string \<Rightarrow> (nat \<Rightarrow> nat) \<Rightarrow> nat \<Rightarrow> nat \<Rightarrow> SnaggingReport" where
  "kitchen_example now today clock idNow createdNow =
     handleUpdateSnag (''room-6-'' @ decimal now) (''snag-'' @ decimal idNow)
       (no_updates\<lparr>upd_location := Some ''Under sink'', upd_description := Some ''Leak'',
                    upd_priority := Some Critical, upd_status := Some Open\<rparr>)
       (handleAddSnag (''room-6-'' @ decimal now) idNow createdNow
          (initialReport clock (newReport now today)))"

text \<open>
  Seven snags with seven different texts; the second has no location and the third no
  description.
\<close>

definition seven_snags :: "SnagItem list" where
  "seven_snags =
     [\<lparr>snag_id = ''snag-1'', location = ''Under sink'', description = ''Leak'',
       priority = Critical, snag_status = Open, photos = [], snag_createdAt = 1\<rparr>,
      \<lparr>snag_id = ''snag-2'', location = [], description = ''Paint splashes'',
       priority = Low, snag_status = Resolved, photos = [], snag_createdAt = 2\<rparr>,
      \<lparr>snag_id = ''snag-3'', location = ''Door'', description = [],
       priority = High, snag_status = In_progress, photos = [], snag_createdAt = 3\<rparr>,
      \<lparr>snag_id = ''snag-4'', location = ''Window'', description = ''Scratches on glass'',
       priority = Medium, snag_status = Open, photos = [], snag_createdAt = 4\<rparr>,
      \<lparr>snag_id = ''snag-5'', location = ''Ceiling'', description = ''Crack'',
       priority = High, snag_status = Open, photos = [], snag_createdAt = 5\<rparr>,
      \<lparr>snag_id = ''snag-6'', location = ''Floor'', description = ''Tile loose'',
       priority = Medium, snag_status = Resolved, photos = [], snag_createdAt = 6\<rparr>,
      \<lparr>snag_id = ''snag-7'', location = ''Socket'', description = ''Plate loose'',
       priority = Low, snag_status = In_progress, photos = [], snag_createdAt = 7\<rparr>]"

text \<open>A report with a single room that holds the seven snags.\<close>

definition seven_snag_report :: SnaggingReport where
  "seven_snag_report =
     example_report\<lparr>rooms :=
       [\<lparr>room_id = ''room-6-5'', room_name = ''Kitchen'', snags = seven_snags\<rparr>]\<rparr>"



section \<open>Aggregate counts and the snag tree\<close>

lemma foldl_add_sum: "foldl (\<lambda>sum room. sum + f room) (a::nat) rs = a + sum_list (map f rs)"
  by (induction rs arbitrary: a) simp_all

lemma length_filter_concat:
  "length (filter P (concat xss)) = sum_list (map (\<lambda>xs. length (filter P xs)) xss)"
  by (induction xss) simp_all

lemma length_concat_sum: "length (concat xss) = sum_list (map length xss)"
  by (induction xss) simp_all

lemma totalSnags_recount: "totalSnags r = length (all_snags r)"
  by (simp add: totalSnags_def all_snags_def foldl_add_sum length_concat_sum comp_def)

lemma openSnags_recount: "openSnags r = length (filter (\<lambda>s. snag_status s = Open) (all_snags r))"
  by (simp add: openSnags_def all_snags_def foldl_add_sum length_filter_concat comp_def)

lemma criticalSnags_recount:
  "criticalSnags r = length (filter (\<lambda>s. priority s = Critical) (all_snags r))"
  by (simp add: criticalSnags_def all_snags_def foldl_add_sum length_filter_concat comp_def)

lemma dashboard_counts:
  "map saved_totalSnags (dashboardReports rs) = map totalSnags rs \<and>
   map saved_openSnags (dashboardReports rs) = map openSnags rs"
  by (simp add: dashboardReports_def totalSnags_def openSnags_def comp_def)

text \<open>
  Claim C4. After any sequence of addSnag, updateSnag and deleteSnag edits (the empty
  sequence included), the three counts the editor shows equal a recount over the tree:
  the number of snags of all rooms, the number of those with status open, and the number
  of those with priority critical. The two counts of the dashboard projection agree with
  the same recount for every report of the collection.
\<close>

theorem counts_equal_recount:
  "totalSnags (apply_edits es r) = length (all_snags (apply_edits es r)) \<and>
   openSnags (apply_edits es r) =
     length (filter (\<lambda>s. snag_status s = Open) (all_snags (apply_edits es r))) \<and>
   criticalSnags (apply_edits es r) =
     length (filter (\<lambda>s. priority s = Critical) (all_snags (apply_edits es r))) \<and>
   map saved_totalSnags (dashboardReports (map (apply_edits es) rs)) =
     map (\<lambda>r. length (all_snags (apply_edits es r))) rs \<and>
   map saved_openSnags (dashboardReports (map (apply_edits es) rs)) =
     map (\<lambda>r. length (filter (\<lambda>s. snag_status s = Open) (all_snags (apply_edits es r)))) rs"
  by (simp add: totalSnags_recount openSnags_recount criticalSnags_recount dashboard_counts comp_def)

section \<open>The update engine\<close>

lemma decimal_digit: "n < 10 \<Longrightarrow> decimal n = [digit_char n]"
  by (simp add: decimal.simps)

lemma decimal_more: "10 \<le> n \<Longrightarrow> decimal n = decimal (n div 10) @ [digit_char (n mod 10)]"
  by (subst decimal.simps) simp

lemma decimal_1000: "decimal 1000 = ''1000''"
  by (simp add: decimal_digit decimal_more digit_char_def)

lemma decimal_2000: "decimal 2000 = ''2000''"
  by (simp add: decimal_digit decimal_more digit_char_def)

lemma map_rooms_id:
  assumes "\<And>room. room \<in> set (rooms r) \<Longrightarrow> f room = room"
  shows "r\<lparr>rooms := map f (rooms r)\<rparr> = r"
proof -
  have "map f (rooms r) = rooms r" using assms by (rule map_idI)
  then show ?thesis by simp
qed

lemma set_snags_id:
  assumes "xs = snags room"
  shows "room\<lparr>snags := xs\<rparr> = room"
  using assms by simp

subsection \<open>updateSnag with an unknown snag id\<close>

text \<open>
  Claim C6. When the room id is present in the report and no room with that id holds a
  snag with the given snag id, \<open>handleUpdateSnag\<close> returns the report it was given:
  every room, snag, photo and scalar field is unchanged.
\<close>

theorem updateSnag_unknown_snag_identity:
  assumes "roomId \<in> room_id ` set (rooms r)"
      and "\<forall>room \<in> set (rooms r). room_id room = roomId \<longrightarrow> snagId \<notin> snag_id ` set (snags room)"
  shows "handleUpdateSnag roomId snagId updates r = r"
  unfolding handleUpdateSnag_def
proof (rule map_rooms_id)
  fix room assume in_r: "room \<in> set (rooms r)"
  show "(if room_id room = roomId
         then room\<lparr>snags :=
                map (\<lambda>snag. if snag_id snag = snagId then merge_updates snag updates else snag)
                    (snags room)\<rparr>
         else room) = room"
  proof (cases "room_id room = roomId")
    case True
    with assms(2) in_r have "\<And>s. s \<in> set (snags room) \<Longrightarrow> snag_id s \<noteq> snagId" by blast
    then have "map (\<lambda>snag. if snag_id snag = snagId then merge_updates snag updates else snag)
                 (snags room) = snags room"
      by (intro map_idI) simp
    then have "room\<lparr>snags :=
                 map (\<lambda>snag. if snag_id snag = snagId then merge_updates snag updates else snag)
                     (snags room)\<rparr> = room"
      by (rule set_snags_id)
    then show ?thesis by (simp only: if_cancel split: if_splits)
  next
    case False
    then show ?thesis by (simp only: if_False)
  qed
qed

theorem updateSnag_unknown_snag_identity_witness:
  "handleUpdateSnag ''room-6-5'' ''snag-7'' (no_updates\<lparr>upd_status := Some Resolved\<rparr>) example_report
     = example_report"
proof -
  have present: "''room-6-5'' \<in> room_id ` set (rooms example_report)"
    by (simp add: example_report_def)
  have absent: "\<forall>room \<in> set (rooms example_report).
      room_id room = ''room-6-5'' \<longrightarrow> ''snag-7'' \<notin> snag_id ` set (snags room)"
    by (simp add: example_report_def newSnag_def decimal_1000)
  show ?thesis
    using present absent by (rule updateSnag_unknown_snag_identity)
qed

subsection \<open>deleteSnag\<close>

lemma delete_absent:
  assumes "\<forall>room \<in> set (rooms r). room_id room = roomId \<longrightarrow> snagId \<notin> snag_id ` set (snags room)"
  shows "handleDeleteSnag roomId snagId r = r"
  unfolding handleDeleteSnag_def
proof (rule map_rooms_id)
  fix room assume in_r: "room \<in> set (rooms r)"
  show "(if room_id room = roomId
         then room\<lparr>snags := filter (\<lambda>s. snag_id s \<noteq> snagId) (snags room)\<rparr>
         else room) = room"
  proof (cases "room_id room = roomId")
    case True
    with assms in_r have "\<And>s. s \<in> set (snags room) \<Longrightarrow> snag_id s \<noteq> snagId" by blast
    then have "filter (\<lambda>s. snag_id s \<noteq> snagId) (snags room) = snags room"
      by (simp add: filter_id_conv)
    then have "room\<lparr>snags := filter (\<lambda>s. snag_id s \<noteq> snagId) (snags room)\<rparr> = room"
      by (rule set_snags_id)
    then show ?thesis by (simp only: if_cancel split: if_splits)
  next
    case False
    then show ?thesis by (simp only: if_False)
  qed
qed

lemma rooms_handleDeleteSnag:
  "rooms (handleDeleteSnag roomId snagId r) =
     map (\<lambda>room. if room_id room = roomId
                  then room\<lparr>snags := filter (\<lambda>s. snag_id s \<noteq> snagId) (snags room)\<rparr>
                  else room) (rooms r)"
  by (simp add: handleDeleteSnag_def)

lemma delete_twice:
  "handleDeleteSnag roomId snagId (handleDeleteSnag roomId snagId r) = handleDeleteSnag roomId snagId r"
proof (rule delete_absent, rule ballI, rule impI)
  fix room
  assume a: "room \<in> set (rooms (handleDeleteSnag roomId snagId r))" and b: "room_id room = roomId"
  from a obtain room0 where "room0 \<in> set (rooms r)" and
    eq: "room = (if room_id room0 = roomId
                 then room0\<lparr>snags := filter (\<lambda>s. snag_id s \<noteq> snagId) (snags room0)\<rparr>
                 else room0)"
    unfolding rooms_handleDeleteSnag by auto
  show "snagId \<notin> snag_id ` set (snags room)"
  proof (cases "room_id room0 = roomId")
    case True
    with eq have "snags room = filter (\<lambda>s. snag_id s \<noteq> snagId) (snags room0)" by simp
    then show ?thesis by auto
  next
    case False
    with eq b show ?thesis by simp
  qed
qed

text \<open>
  Claim C9. Deleting the same snag twice gives the report that deleting it once gives,
  and deleting a snag id that the room does not hold returns the report unchanged (the
  handler has no error path).
\<close>

theorem deleteSnag_idempotent:
  "handleDeleteSnag roomId snagId (handleDeleteSnag roomId snagId r) = handleDeleteSnag roomId snagId r \<and>
   ((\<forall>room \<in> set (rooms r). room_id room = roomId \<longrightarrow> snagId \<notin> snag_id ` set (snags room))
      \<longrightarrow> handleDeleteSnag roomId snagId r = r)"
  using delete_twice delete_absent by blast

theorem deleteSnag_idempotent_witness:
  "handleDeleteSnag ''room-6-5'' ''snag-1000'' (handleDeleteSnag ''room-6-5'' ''snag-1000'' example_report)
     = example_report\<lparr>rooms :=
         [\<lparr>room_id = ''room-0-5'', room_name = ''Front Elevation'', snags = []\<rparr>,
          \<lparr>room_id = ''room-6-5'', room_name = ''Kitchen'', snags = []\<rparr>]\<rparr>
   \<and> handleDeleteSnag ''room-6-5'' ''snag-7'' example_report = example_report"
proof -
  have absent: "\<forall>room \<in> set (rooms example_report).
      room_id room = ''room-6-5'' \<longrightarrow> ''snag-7'' \<notin> snag_id ` set (snags room)"
    by (simp add: example_report_def newSnag_def decimal_1000)
  have once: "handleDeleteSnag ''room-6-5'' ''snag-1000'' example_report
     = example_report\<lparr>rooms :=
         [\<lparr>room_id = ''room-0-5'', room_name = ''Front Elevation'', snags = []\<rparr>,
          \<lparr>room_id = ''room-6-5'', room_name = ''Kitchen'', snags = []\<rparr>]\<rparr>"
    by (simp add: handleDeleteSnag_def example_report_def newSnag_def decimal_1000)
  show ?thesis
    using deleteSnag_idempotent [where roomId = "''room-6-5''" and snagId = "''snag-1000''"
            and r = example_report]
          deleteSnag_idempotent [where roomId = "''room-6-5''" and snagId = "''snag-7''"
            and r = example_report]
          absent once
    by simp
qed

subsection \<open>addSnag\<close>

text \<open>
  Claim C5, as the code has it. \<open>handleAddSnag\<close> leaves every scalar field of the report
  and the number, ids and names of the rooms unchanged. Every room whose id is the given
  one gets one new snag at the end of its sequence: id \<open>snag-\<close> followed by the clock
  reading, empty location and description, priority medium, status open, no photos, and
  the second clock reading as \<open>createdAt\<close>. Every other room keeps its snags. When no
  room has the id, the report is returned unchanged; nothing fails.
\<close>

theorem addSnag_appends:
  "(handleAddSnag roomId idNow createdNow r)\<lparr>rooms := rooms r\<rparr> = r \<and>
   length (rooms (handleAddSnag roomId idNow createdNow r)) = length (rooms r) \<and>
   (\<forall>i < length (rooms r).
      room_id (rooms (handleAddSnag roomId idNow createdNow r) ! i) = room_id (rooms r ! i) \<and>
      room_name (rooms (handleAddSnag roomId idNow createdNow r) ! i) = room_name (rooms r ! i) \<and>
      snags (rooms (handleAddSnag roomId idNow createdNow r) ! i) =
        (if room_id (rooms r ! i) = roomId
         then snags (rooms r ! i) @
                [\<lparr>snag_id = ''snag-'' @ decimal idNow, location = [], description = [],
                  priority = Medium, snag_status = Open, photos = [],
                  snag_createdAt = createdNow\<rparr>]
         else snags (rooms r ! i))) \<and>
   (roomId \<notin> room_id ` set (rooms r) \<longrightarrow> handleAddSnag roomId idNow createdNow r = r)"
proof -
  have absent: "handleAddSnag roomId idNow createdNow r = r" if "roomId \<notin> room_id ` set (rooms r)"
  proof -
    have "map (\<lambda>room. if room_id room = roomId
                       then room\<lparr>snags := snags room @ [newSnag idNow createdNow]\<rparr>
                       else room) (rooms r) = rooms r"
      using that by (intro map_idI) auto
    then show ?thesis by (simp add: handleAddSnag_def)
  qed
  show ?thesis
    using absent by (simp add: handleAddSnag_def newSnag_def)
qed

theorem addSnag_appends_witness:
  "snags (rooms (handleAddSnag ''room-6-5'' 2000 2001 example_report) ! 1) =
     [newSnag 1000 1000, newSnag 2000 2001]
   \<and> snags (rooms (handleAddSnag ''room-6-5'' 2000 2001 example_report) ! 0) = []
   \<and> handleAddSnag ''room-7-5'' 2000 2001 example_report = example_report"
  using addSnag_appends [where roomId = "''room-6-5''" and idNow = 2000 and createdNow = 2001
          and r = example_report]
        addSnag_appends [where roomId = "''room-7-5''" and idNow = 2000 and createdNow = 2001
          and r = example_report]
  by (simp add: example_report_def newSnag_def)

text \<open>
  Claim C5 as stated asks for a \<open>NotFound\<close> failure when the room id is absent. At the
  room id \<open>room-7-5\<close>, which \<open>example_report\<close> does not have, the operation as specified
  fails, while the handler returns the report unchanged.
\<close>

theorem addSnag_not_found_counterexample:
  "spec_addSnag ''room-7-5'' 2000 2001 example_report = Inl NotFound \<and>
   handleAddSnag ''room-7-5'' 2000 2001 example_report = example_report \<and>
   Inr (handleAddSnag ''room-7-5'' 2000 2001 example_report)
     \<noteq> spec_addSnag ''room-7-5'' 2000 2001 example_report"
  by (simp add: spec_addSnag_def handleAddSnag_def example_report_def)

subsection \<open>addSnag followed by deleteSnag\<close>

text \<open>
  Claim C8, as the code has it. The id of the new snag is \<open>snag-\<close> followed by the clock
  reading. When no snag of the rooms with the given id already carries that id, adding a
  snag and then deleting the snag just added restores the whole report, so every room
  has the snag sequence it had, by id and content, in the same order.
\<close>

theorem addSnag_deleteSnag_roundtrip:
  assumes "\<forall>room \<in> set (rooms r). room_id room = roomId \<longrightarrow>
             ''snag-'' @ decimal idNow \<notin> snag_id ` set (snags room)"
  shows "handleDeleteSnag roomId (snag_id (newSnag idNow createdNow))
           (handleAddSnag roomId idNow createdNow r) = r"
proof -
  define new where "new = newSnag idNow createdNow"
  have new_id: "snag_id new = ''snag-'' @ decimal idNow"
    by (simp add: new_def newSnag_def)
  from assms have fresh:
    "\<forall>room \<in> set (rooms r). room_id room = roomId \<longrightarrow> snag_id new \<notin> snag_id ` set (snags room)"
    by (simp only: new_id)
  define f :: "Room \<Rightarrow> Room" where
    "f = (\<lambda>room. if room_id room = roomId then room\<lparr>snags := snags room @ [new]\<rparr> else room)"
  define g :: "Room \<Rightarrow> Room" where
    "g = (\<lambda>room. if room_id room = roomId
                  then room\<lparr>snags := filter (\<lambda>s. snag_id s \<noteq> snag_id new) (snags room)\<rparr>
                  else room)"
  have gf: "g (f room) = room" if "room \<in> set (rooms r)" for room
  proof (cases "room_id room = roomId")
    case True
    with fresh that have "\<And>s. s \<in> set (snags room) \<Longrightarrow> snag_id s \<noteq> snag_id new"
      by (metis imageI)
    then have "filter (\<lambda>s. snag_id s \<noteq> snag_id new) (snags room @ [new]) = snags room"
      by (simp add: filter_id_conv)
    with True show ?thesis by (simp add: f_def g_def)
  next
    case False
    then show ?thesis by (simp add: f_def g_def)
  qed
  have gf_all: "map (g \<circ> f) (rooms r) = rooms r"
    by (rule map_idI) (simp add: gf)
  have add: "handleAddSnag roomId idNow createdNow r = r\<lparr>rooms := map f (rooms r)\<rparr>"
    by (simp add: handleAddSnag_def f_def new_def)
  have del: "handleDeleteSnag roomId (snag_id (newSnag idNow createdNow)) r' = r'\<lparr>rooms := map g (rooms r')\<rparr>"
    for r'
    by (simp add: handleDeleteSnag_def g_def new_def)
  show ?thesis
    by (simp add: add del gf_all)
qed

theorem addSnag_deleteSnag_roundtrip_witness:
  "handleDeleteSnag ''room-6-5'' ''snag-2000'' (handleAddSnag ''room-6-5'' 2000 2001 example_report)
     = example_report"
proof -
  have fresh: "\<forall>room \<in> set (rooms example_report). room_id room = ''room-6-5'' \<longrightarrow>
       ''snag-'' @ decimal 2000 \<notin> snag_id ` set (snags room)"
    by (simp add: example_report_def newSnag_def decimal_1000 decimal_2000)
  show ?thesis
    using addSnag_deleteSnag_roundtrip [OF fresh, where createdNow = 2001]
    by (simp add: newSnag_def decimal_2000)
qed

text \<open>
  Claim C8 as stated, for every report, fails when the clock reading repeats: the
  Kitchen of \<open>example_report\<close> holds the snag made at clock reading 1000; a second snag
  made at the same reading gets the same id, and deleting it removes both.
\<close>

theorem addSnag_deleteSnag_roundtrip_counterexample:
  "snags (rooms example_report ! 1) = [newSnag 1000 1000] \<and>
   snags (rooms (handleDeleteSnag ''room-6-5'' (snag_id (newSnag 1000 1001))
            (handleAddSnag ''room-6-5'' 1000 1001 example_report)) ! 1) = []"
  by (simp add: handleDeleteSnag_def handleAddSnag_def example_report_def newSnag_def)

subsection \<open>setStatus on the collection\<close>

text \<open>
  Claim C10. \<open>handleStatusChange\<close> keeps the length and order of the collection. A report
  whose id matches gets the new status and nothing else changes in it: its
  \<open>lastModified\<close>, its rooms with their snags and photos, and every other field are
  those of the input (setting the status back gives the input report). A report whose id
  does not match is unchanged.
\<close>

theorem setStatus_frame:
  "length (handleStatusChange ident st rs) = length rs \<and>
   (\<forall>k < length rs.
      (report_id (rs ! k) = ident \<longrightarrow>
         report_status (handleStatusChange ident st rs ! k) = st \<and>
         lastModified (handleStatusChange ident st rs ! k) = lastModified (rs ! k) \<and>
         rooms (handleStatusChange ident st rs ! k) = rooms (rs ! k) \<and>
         (handleStatusChange ident st rs ! k)\<lparr>report_status := report_status (rs ! k)\<rparr> = rs ! k) \<and>
      (report_id (rs ! k) \<noteq> ident \<longrightarrow> handleStatusChange ident st rs ! k = rs ! k))"
  by (simp add: handleStatusChange_def)

theorem setStatus_frame_witness:
  "handleStatusChange ''report-5'' Complete [example_report, example_report\<lparr>report_id := ''report-9''\<rparr>]
     = [example_report\<lparr>report_status := Complete\<rparr>, example_report\<lparr>report_id := ''report-9''\<rparr>]
   \<and> lastModified (handleStatusChange ''report-5'' Complete
         [example_report, example_report\<lparr>report_id := ''report-9''\<rparr>] ! 0) = 5"
  using setStatus_frame [where ident = "''report-5''" and st = Complete
          and rs = "[example_report, example_report\<lparr>report_id := ''report-9''\<rparr>]"]
  by (simp add: handleStatusChange_def example_report_def)

subsection \<open>A batch of uploaded photos\<close>

lemma merge_photos_twice:
  "merge_updates (merge_updates s (no_updates\<lparr>upd_photos := Some ps\<rparr>))
     (no_updates\<lparr>upd_photos := Some qs\<rparr>)
   = merge_updates s (no_updates\<lparr>upd_photos := Some qs\<rparr>)"
  by (simp add: merge_updates_def no_updates_def)

lemma snag_id_merge_photos:
  "snag_id (merge_updates s (no_updates\<lparr>upd_photos := Some ps\<rparr>)) = snag_id s"
  by (simp add: merge_updates_def no_updates_def)

lemma onloadend_overwrites:
  "onloadend cr roomId snagId f2 (onloadend cr roomId snagId f1 prev) =
     onloadend cr roomId snagId f2 prev"
proof -
  define h :: "LoadedFile \<Rightarrow> SnagItem \<Rightarrow> SnagItem" where
    "h = (\<lambda>f snag. if snag_id snag = snagId
            then merge_updates snag
                   (no_updates\<lparr>upd_photos := Some (find_photos cr roomId snagId @ [photo_of f])\<rparr>)
            else snag)"
  define g :: "LoadedFile \<Rightarrow> Room \<Rightarrow> Room" where
    "g = (\<lambda>f room. if room_id room = roomId then room\<lparr>snags := map (h f) (snags room)\<rparr> else room)"
  have h: "h f2 (h f1 s) = h f2 s" for s
    by (simp add: h_def merge_photos_twice snag_id_merge_photos)
  have hh: "map (h f2 \<circ> h f1) ss = map (h f2) ss" for ss
    by (simp add: h comp_def)
  have g: "g f2 (g f1 room) = g f2 room" for room
    by (simp add: g_def hh)
  have gg: "map (g f2 \<circ> g f1) rs = map (g f2) rs" for rs
    by (simp add: g comp_def)
  have step: "onloadend cr roomId snagId f r = r\<lparr>rooms := map (g f) (rooms r)\<rparr>" for f r
    by (simp add: onloadend_def handleUpdateSnag_def g_def h_def)
  show ?thesis
    by (simp add: step gg)
qed

text \<open>
  Every completion writes the photo list of the render-time report plus its own photo,
  so a batch has the effect of its last completion alone.
\<close>

lemma photo_batch_last_wins:
  "files \<noteq> [] \<Longrightarrow>
   handlePhotoUpload cr roomId snagId files prev = onloadend cr roomId snagId (last files) prev"
proof (induction files arbitrary: prev)
  case Nil
  then show ?case by simp
next
  case (Cons f fs)
  show ?case
  proof (cases fs)
    case Nil
    then show ?thesis by (simp add: handlePhotoUpload_def)
  next
    case (Cons g gs)
    then have "handlePhotoUpload cr roomId snagId fs (onloadend cr roomId snagId f prev)
      = onloadend cr roomId snagId (last fs) (onloadend cr roomId snagId f prev)"
      using Cons.IH by simp
    then show ?thesis using Cons
      by (simp add: handlePhotoUpload_def onloadend_overwrites)
  qed
qed

text \<open>
  Claim C7 fails on the code. Two files are uploaded to the snag \<open>snag-1000\<close> of
  \<open>example_report\<close>, which has no photos; both readers finish, in input order. The snag
  ends with the photo of the second file only, not with the two photos in input order.
\<close>

theorem photo_batch_keeps_only_last:
  "find_photos (handlePhotoUpload example_report ''room-6-5'' ''snag-1000'' [file_a, file_b] example_report)
       ''room-6-5'' ''snag-1000'' = [photo_of file_b]
   \<and> find_photos example_report ''room-6-5'' ''snag-1000'' @ [photo_of file_a, photo_of file_b]
       \<noteq> [photo_of file_b]"
  by (simp add: handlePhotoUpload_def onloadend_def handleUpdateSnag_def find_photos_def
        example_report_def newSnag_def decimal_1000 merge_updates_def no_updates_def)

section \<open>The document generator\<close>

subsection \<open>Projections of the drawing functions\<close>

lemma draw_snag_calls:
  "fst (draw_snag ph s y) =
     (if y > ph - 30 then AddPage # snag_entry s margin else snag_entry s y)"
  by (simp add: draw_snag_def)

lemma draw_snag_y:
  "snd (draw_snag ph s y) = (if y > ph - 30 then margin + 16 else y + 16)"
  by (simp add: draw_snag_def)

lemma draw_snags_Nil: "draw_snags ph [] y = ([], y)"
  by simp

lemma draw_snags_calls_Cons:
  "fst (draw_snags ph (s # ss) y) =
     fst (draw_snag ph s y) @ fst (draw_snags ph ss (snd (draw_snag ph s y)))"
  by (simp add: case_prod_beta)


lemma draw_room_empty: "snags room = [] \<Longrightarrow> draw_room ph room y = ([], y)"
  by (simp add: draw_room_def)

lemma draw_room_calls:
  "snags room \<noteq> [] \<Longrightarrow>
   fst (draw_room ph room y) =
     (if y > ph - 40
      then AddPage # heading_calls room margin @ fst (draw_snags ph (snags room) (margin + 8))
      else heading_calls room y @ fst (draw_snags ph (snags room) (y + 8)))"
  by (simp add: draw_room_def heading_calls_def case_prod_beta Let_def)


lemma draw_rooms_calls_Cons:
  "fst (draw_rooms ph (room # rest) y) =
     fst (draw_room ph room y) @ fst (draw_rooms ph rest (snd (draw_room ph room y)))"
  by (simp add: case_prod_beta)

lemma draw_rooms_y_Cons:
  "snd (draw_rooms ph (room # rest) y) = snd (draw_rooms ph rest (snd (draw_room ph room y)))"
  by (simp add: case_prod_beta)

lemma export_document:
  "handleExportPDF True pw ph r =
     Some (fst (title_page pw r) @ fst (draw_rooms ph (rooms r) (snd (title_page pw r))))"
  by (simp add: handleExportPDF_def case_prod_beta)

lemma title_page_y: "snd (title_page pw r) = 178"
  by (simp add: title_page_def)

lemma draw_rooms_Nil: "draw_rooms ph [] y = ([], y)"
  by simp

declare draw_snags.simps [simp del] draw_rooms.simps [simp del]

subsection \<open>Texts in the entry column\<close>

lemma lines_at_append: "lines_at x (a @ b) = lines_at x a @ lines_at x b"
  by (simp add: lines_at_def)

lemma lines_at_Cons: "lines_at x (c # cs) = line_at x c @ lines_at x cs"
  by (simp add: lines_at_def)

lemma lines_at_Nil: "lines_at x [] = []"
  by (simp add: lines_at_def)

lemma lines_snag_entry: "lines_at (margin + 8) (snag_entry s y) = [summary_line s, detail_line s]"
  by (simp add: snag_entry_def lines_at_def split: prod.splits)

lemma lines_draw_snag: "lines_at (margin + 8) (fst (draw_snag ph s y)) = [summary_line s, detail_line s]"
  by (simp add: draw_snag_calls lines_at_Cons lines_snag_entry)

lemma lines_draw_snags:
  "lines_at (margin + 8) (fst (draw_snags ph ss y)) =
     concat (map (\<lambda>s. [summary_line s, detail_line s]) ss)"
proof (induction ss arbitrary: y)
  case Nil
  show ?case by (simp add: lines_at_Nil draw_snags_Nil draw_rooms_Nil)
next
  case (Cons s ss)
  show ?case
    by (simp only: draw_snags_calls_Cons lines_at_append lines_draw_snag Cons.IH list.map concat.simps)
qed

lemma lines_heading: "lines_at (margin + 8) (heading_calls room y) = []"
  by (simp add: heading_calls_def lines_at_def)

lemma lines_draw_room:
  "lines_at (margin + 8) (fst (draw_room ph room y)) =
     concat (map (\<lambda>s. [summary_line s, detail_line s]) (snags room))"
proof (cases "snags room = []")
  case True
  then show ?thesis by (simp add: draw_room_empty lines_at_Nil)
next
  case False
  then show ?thesis
    by (simp add: draw_room_calls lines_at_Cons lines_at_append lines_heading lines_draw_snags)
qed

lemma lines_draw_rooms:
  "lines_at (margin + 8) (fst (draw_rooms ph rs y)) =
     concat (map (\<lambda>s. [summary_line s, detail_line s]) (concat (map snags rs)))"
proof (induction rs arbitrary: y)
  case Nil
  show ?case by (simp add: lines_at_Nil draw_snags_Nil draw_rooms_Nil)
next
  case (Cons room rs)
  show ?case
    by (simp only: draw_rooms_calls_Cons lines_at_append lines_draw_room Cons.IH
          list.map concat.simps map_append concat_append)
qed

lemma lines_title_page: "lines_at (margin + 8) (fst (title_page pw r)) = []"
  by (simp add: title_page_def lines_at_def)

lemma pages_of_not_Nil: "pages_of cs \<noteq> []"
  by (induction cs rule: pages_of.induct) simp_all

lemma pages_of_Cons:
  "c \<noteq> AddPage \<Longrightarrow> pages_of (c # cs) = (c # hd (pages_of cs)) # tl (pages_of cs)"
  by (cases c) simp_all

lemma concat_pages_of: "concat (pages_of cs) = filter (\<lambda>c. c \<noteq> AddPage) cs"
proof (induction cs)
  case Nil
  show ?case by simp
next
  case (Cons c cs)
  have split: "hd (pages_of cs) @ concat (tl (pages_of cs)) = concat (pages_of cs)"
    using pages_of_not_Nil [of cs] by (cases "pages_of cs") simp_all
  show ?case
  proof (cases "c = AddPage")
    case True
    with Cons show ?thesis by simp
  next
    case False
    with Cons split show ?thesis by (simp add: pages_of_Cons)
  qed
qed

lemma lines_at_no_breaks: "lines_at x (filter (\<lambda>c. c \<noteq> AddPage) cs) = lines_at x cs"
  by (induction cs) (auto simp: lines_at_def)

lemma lines_pages: "lines_at x (concat (pages_of cs)) = lines_at x cs"
  by (simp add: concat_pages_of lines_at_no_breaks)

subsection \<open>Empty rooms\<close>

lemma draw_rooms_skip_empty:
  "draw_rooms ph (filter (\<lambda>room. snags room \<noteq> []) rs) y = draw_rooms ph rs y"
proof (induction rs arbitrary: y)
  case Nil
  show ?case by simp
next
  case (Cons room rs)
  show ?case
  proof (cases "snags room = []")
    case True
    then show ?thesis using Cons by (simp add: draw_room_empty draw_rooms.simps)
  next
    case False
    then show ?thesis using Cons by (simp add: draw_rooms.simps)
  qed
qed

lemma concat_snags_skip_empty:
  "concat (map snags (filter (\<lambda>room. snags room \<noteq> []) rs)) = concat (map snags rs)"
  by (induction rs) simp_all

lemma all_snags_skip_empty:
  "all_snags (r\<lparr>rooms := filter (\<lambda>room. snags room \<noteq> []) (rooms r)\<rparr>) = all_snags r"
  by (simp add: all_snags_def concat_snags_skip_empty)

lemma title_page_skip_empty:
  "title_page pw (r\<lparr>rooms := filter (\<lambda>room. snags room \<noteq> []) (rooms r)\<rparr>) = title_page pw r"
proof -
  let ?r' = "r\<lparr>rooms := filter (\<lambda>room. snags room \<noteq> []) (rooms r)\<rparr>"
  have "totalSnags ?r' = totalSnags r" "openSnags ?r' = openSnags r" "criticalSnags ?r' = criticalSnags r"
    by (simp_all only: totalSnags_recount openSnags_recount criticalSnags_recount all_snags_skip_empty)
  then show ?thesis by (simp add: title_page_def)
qed

lemma export_skip_empty:
  "handleExportPDF True pw ph (r\<lparr>rooms := filter (\<lambda>room. snags room \<noteq> []) (rooms r)\<rparr>)
     = handleExportPDF True pw ph r"
  by (simp add: export_document title_page_skip_empty draw_rooms_skip_empty)

subsection \<open>Page breaks\<close>

lemma length_pages_of: "length (pages_of cs) = Suc (length (filter (\<lambda>c. c = AddPage) cs))"
proof (induction cs)
  case Nil
  show ?case by simp
next
  case (Cons c cs)
  show ?case
  proof (cases "c = AddPage")
    case True
    with Cons show ?thesis by simp
  next
    case False
    with Cons pages_of_not_Nil [of cs] show ?thesis by (simp add: pages_of_Cons)
  qed
qed

lemma more_pages_iff: "1 < length (pages_of cs) \<longleftrightarrow> AddPage \<in> set cs"
  by (simp add: length_pages_of filter_empty_conv)

lemma no_break_snag_entry: "AddPage \<notin> set (snag_entry s y)"
  by (simp add: snag_entry_def split: prod.splits)

lemma no_break_heading: "AddPage \<notin> set (heading_calls room y)"
  by (simp add: heading_calls_def)

lemma no_break_title_page: "AddPage \<notin> set (fst (title_page pw r))"
  by (simp add: title_page_def)

lemma break_draw_snags:
  "AddPage \<in> set (fst (draw_snags ph ss y)) \<longleftrightarrow> (\<exists>k < length ss. ph - 30 < y + 16 * real k)"
proof (induction ss arbitrary: y)
  case Nil
  show ?case by (simp add: draw_snags_Nil)
next
  case (Cons s ss)
  show ?case
  proof (cases "y > ph - 30")
    case True
    then have "\<exists>k < length (s # ss). ph - 30 < y + 16 * real k"
      by (intro exI [of _ 0]) simp
    with True show ?thesis
      by (simp add: draw_snags_calls_Cons draw_snag_calls)
  next
    case False
    have "(\<exists>k < length (s # ss). ph - 30 < y + 16 * real k)
            \<longleftrightarrow> (\<exists>k < length ss. ph - 30 < y + 16 + 16 * real k)"
    proof
      assume "\<exists>k < length (s # ss). ph - 30 < y + 16 * real k"
      then obtain k where k: "k < length (s # ss)" "ph - 30 < y + 16 * real k" by blast
      with False obtain j where "k = Suc j" by (cases k) auto
      with k show "\<exists>k < length ss. ph - 30 < y + 16 + 16 * real k"
        by (intro exI [of _ j]) (simp add: algebra_simps)
    next
      assume "\<exists>k < length ss. ph - 30 < y + 16 + 16 * real k"
      then obtain j where "j < length ss" "ph - 30 < y + 16 + 16 * real j" by blast
      then show "\<exists>k < length (s # ss). ph - 30 < y + 16 * real k"
        by (intro exI [of _ "Suc j"]) (simp add: algebra_simps)
    qed
    with False show ?thesis
      by (simp add: draw_snags_calls_Cons draw_snag_calls draw_snag_y no_break_snag_entry Cons.IH)
  qed
qed

lemma capacity_exceeded:
  assumes "218 \<le> ph"
  shows "(\<exists>k < n. ph - 30 < 186 + 16 * real k) \<longleftrightarrow> first_page_capacity ph < n"
proof -
  have cap: "first_page_capacity ph = nat \<lfloor>(ph - 200) / 16\<rfloor>"
    using assms by (simp add: first_page_capacity_def)
  have nonneg: "0 \<le> \<lfloor>(ph - 200) / 16\<rfloor>"
    using assms by simp
  have iff: "first_page_capacity ph < n \<longleftrightarrow> ph - 200 < 16 * real n"
  proof -
    have "first_page_capacity ph < n \<longleftrightarrow> \<lfloor>(ph - 200) / 16\<rfloor> < int n"
      using nonneg cap by linarith
    also have "\<dots> \<longleftrightarrow> (ph - 200) / 16 < real n"
      by (simp add: floor_less_iff)
    also have "\<dots> \<longleftrightarrow> ph - 200 < 16 * real n"
      by (simp add: field_simps)
    finally show ?thesis .
  qed
  show ?thesis
  proof
    assume "\<exists>k < n. ph - 30 < 186 + 16 * real k"
    then obtain k where k: "k < n" "ph - 30 < 186 + 16 * real k" by blast
    from k(1) have "real k + 1 \<le> real n" by linarith
    with k(2) have "ph - 200 < 16 * real n" by linarith
    with iff show "first_page_capacity ph < n" by simp
  next
    assume "first_page_capacity ph < n"
    with iff have lt: "ph - 200 < 16 * real n" by simp
    with assms have "0 < n" by (cases n) auto
    then obtain j where j: "n = Suc j" by (cases n) auto
    with lt have "ph - 30 < 186 + 16 * real j" by simp
    with j show "\<exists>k < n. ph - 30 < 186 + 16 * real k" by blast
  qed
qed

lemma one_room_pages:
  "1 < length (pages_of (fst (title_page pw r) @ fst (draw_rooms ph [room] 178)))
     \<longleftrightarrow> first_page_capacity ph < length (snags room)"
proof (cases "snags room = []")
  case True
  then show ?thesis
    unfolding more_pages_iff
    by (simp add: no_break_title_page draw_rooms_calls_Cons draw_room_empty draw_rooms_Nil)
next
  case nonempty: False
  show ?thesis
  proof (cases "ph < 218")
    case True
    with nonempty show ?thesis
      unfolding more_pages_iff
      by (simp add: draw_rooms_calls_Cons draw_room_calls first_page_capacity_def)
  next
    case False
    then have big: "218 \<le> ph" by simp
    have "first_page_capacity ph < length (snags room)
            \<longleftrightarrow> (\<exists>k < length (snags room). ph - 30 < 186 + 16 * real k)"
      using capacity_exceeded [OF big] by simp
    with nonempty False show ?thesis
      unfolding more_pages_iff
      by (simp add: no_break_title_page draw_rooms_calls_Cons draw_room_calls draw_rooms_Nil
            no_break_heading break_draw_snags)
  qed
qed

subsection \<open>Text lines\<close>

lemma split_lines_not_Nil: "split_lines t \<noteq> []"
  by (induction t rule: split_lines.induct) (auto split: list.splits)






lemma entry_bottom_below: "y + 16 \<le> entry_bottom lh s y"
  by (simp add: entry_bottom_def)

subsection \<open>Whole entries\<close>

lemma split_entry_not_whole:
  "\<not> whole_entries ph lh lo (take 3 (snag_entry snag y))"
proof
  assume "whole_entries ph lh lo (take 3 (snag_entry snag y))"
  then obtain c where w: "whole_entries ph lh lo [c, Circle (margin + 2) (y - 1) 2 ''F'',
      Text (summary_line snag) (margin + 8) y]"
    by (simp add: snag_entry_def)
  from w obtain lo' where "whole_entries ph lh lo'
      [Circle (margin + 2) (y - 1) 2 ''F'', Text (summary_line snag) (margin + 8) y]"
    by (cases rule: whole_entries.cases) (auto simp: snag_entry_def)
  then show False
    by (cases rule: whole_entries.cases) (simp_all add: snag_entry_def)
qed


text \<open>Two entries drawn at the same place are not whole entries of a page.\<close>

lemma whole_first_entry:
  assumes "whole_entries ph lh lo (snag_entry s y @ cs)"
  shows "lo \<le> y \<and> whole_entries ph lh (entry_bottom lh s y) cs"
  using assms
proof (cases rule: whole_entries.cases)
  case whole_nil
  then show ?thesis by (simp add: snag_entry_def)
next
  case (whole_other c cs')
  then show ?thesis by (simp add: snag_entry_def split: prod.splits)
      (cases rule: whole_entries.cases, auto simp: snag_entry_def split: prod.splits)
next
  case (whole_entry y' snag' cs')
  then have "y' = y" "summary_line snag' = summary_line s" "cs' = cs"
    by (simp_all add: snag_entry_def split: prod.splits)
  with whole_entry show ?thesis by (simp add: entry_bottom_def)
qed

lemma overprint_not_whole:
  "\<not> whole_entries ph lh lo (snag_entry s y @ snag_entry s' y @ cs)"
proof
  assume "whole_entries ph lh lo (snag_entry s y @ snag_entry s' y @ cs)"
  then have "whole_entries ph lh (entry_bottom lh s y) (snag_entry s' y @ cs)"
    using whole_first_entry by blast
  then have "entry_bottom lh s y \<le> y"
    using whole_first_entry by blast
  with entry_bottom_below [of y lh s] show False by simp
qed

lemma pages_of_append:
  "AddPage \<notin> set a \<Longrightarrow> pages_of (a @ cs) = (a @ hd (pages_of cs)) # tl (pages_of cs)"
proof (induction a)
  case Nil
  then show ?case using pages_of_not_Nil [of cs] by simp
next
  case (Cons c a)
  then have "c \<noteq> AddPage" by auto
  with Cons show ?case by (simp add: pages_of_Cons)
qed























subsection \<open>The texts of an entry\<close>

lemma detail_line_text:
  "detail_line snag =
     ''Priority: '' @
     (case priority snag of
        Critical \<Rightarrow> ''CRITICAL'' | High \<Rightarrow> ''HIGH'' | Medium \<Rightarrow> ''MEDIUM'' | Low \<Rightarrow> ''LOW'') @
     '' | Status: '' @
     (case snag_status snag of
        Open \<Rightarrow> ''OPEN'' | In_progress \<Rightarrow> ''IN PROGRESS'' | Resolved \<Rightarrow> ''RESOLVED'')"
  by (cases "priority snag"; cases "snag_status snag")
     (simp_all add: detail_line_def toUpperCase_def upper_char_def)

lemma summary_line_text:
  "summary_line snag =
     (if location snag = [] then ''No location'' else location snag) @ '': '' @
     (if description snag = [] then ''No description'' else description snag)"
  by (simp add: summary_line_def or_else_def)

lemma status_hyphens_replaced:
  "replace_first CHR ''-'' CHR '' '' (status_str st) =
     map (\<lambda>c. if c = CHR ''-'' then CHR '' '' else c) (status_str st)"
  by (cases st) simp_all

text \<open>
  Claim C1. The document is generated for every report (mounted editor), and
  \<^item> the rooms without snags contribute nothing: the document is the one generated from
    the report with those rooms removed;
  \<^item> the texts of the entry column, read page by page, are, for every snag once, room by
    room and in each room's own order, its summary line (the location or "No location",
    a colon and a space, the description or "No description") followed by its second
    line;
  \<^item> for a report with a single room, the document has more than one page exactly when
    the room has more snags than page 1 holds (\<open>first_page_capacity\<close>, 6 on A4).
\<close>

theorem document_in_room_order:
  "\<exists>pdf. handleExportPDF True pageWidth pageHeight r = Some pdf \<and>
     handleExportPDF True pageWidth pageHeight
       (r\<lparr>rooms := filter (\<lambda>room. snags room \<noteq> []) (rooms r)\<rparr>) = Some pdf \<and>
     lines_at (margin + 8) (concat (pages_of pdf)) =
       concat (map (\<lambda>snag.
           [(if location snag = [] then ''No location'' else location snag) @ '': '' @
            (if description snag = [] then ''No description'' else description snag),
            ''Priority: '' @
            (case priority snag of
               Critical \<Rightarrow> ''CRITICAL'' | High \<Rightarrow> ''HIGH'' | Medium \<Rightarrow> ''MEDIUM'' | Low \<Rightarrow> ''LOW'') @
            '' | Status: '' @
            (case snag_status snag of
               Open \<Rightarrow> ''OPEN'' | In_progress \<Rightarrow> ''IN PROGRESS'' | Resolved \<Rightarrow> ''RESOLVED'')])
         (all_snags r)) \<and>
     (\<forall>room. rooms r = [room] \<longrightarrow>
        (1 < length (pages_of pdf) \<longleftrightarrow> first_page_capacity pageHeight < length (snags room)))"
proof -
  let ?pdf = "fst (title_page pageWidth r) @ fst (draw_rooms pageHeight (rooms r) (snd (title_page pageWidth r)))"
  have 1: "handleExportPDF True pageWidth pageHeight r = Some ?pdf"
    by (rule export_document)
  have 2: "handleExportPDF True pageWidth pageHeight
       (r\<lparr>rooms := filter (\<lambda>room. snags room \<noteq> []) (rooms r)\<rparr>) = Some ?pdf"
    by (simp only: export_skip_empty 1)
  have "lines_at (margin + 8) (concat (pages_of ?pdf)) =
       concat (map (\<lambda>snag. [summary_line snag, detail_line snag]) (all_snags r))"
    by (simp add: lines_pages lines_at_append lines_title_page lines_draw_rooms all_snags_def)
  then have 3: "lines_at (margin + 8) (concat (pages_of ?pdf)) =
       concat (map (\<lambda>snag.
           [(if location snag = [] then ''No location'' else location snag) @ '': '' @
            (if description snag = [] then ''No description'' else description snag),
            ''Priority: '' @
            (case priority snag of
               Critical \<Rightarrow> ''CRITICAL'' | High \<Rightarrow> ''HIGH'' | Medium \<Rightarrow> ''MEDIUM'' | Low \<Rightarrow> ''LOW'') @
            '' | Status: '' @
            (case snag_status snag of
               Open \<Rightarrow> ''OPEN'' | In_progress \<Rightarrow> ''IN PROGRESS'' | Resolved \<Rightarrow> ''RESOLVED'')])
         (all_snags r))"
    by (simp only: summary_line_text [symmetric] detail_line_text [symmetric])
  have 4: "1 < length (pages_of ?pdf) \<longleftrightarrow> first_page_capacity pageHeight < length (snags room)"
    if "rooms r = [room]" for room
    using that one_room_pages [of pageWidth r pageHeight room] by (simp add: title_page_y)
  from 1 2 3 4 show ?thesis by blast
qed

theorem document_in_room_order_witness:
  "first_page_capacity a4_pageHeight = 6 \<and>
   (\<exists>pdf. handleExportPDF True a4_pageWidth a4_pageHeight seven_snag_report = Some pdf \<and>
          1 < length (pages_of pdf) \<and>
          lines_at (margin + 8) (concat (pages_of pdf)) =
            [''Under sink: Leak'', ''Priority: CRITICAL | Status: OPEN'',
             ''No location: Paint splashes'', ''Priority: LOW | Status: RESOLVED'',
             ''Door: No description'', ''Priority: HIGH | Status: IN PROGRESS'',
             ''Window: Scratches on glass'', ''Priority: MEDIUM | Status: OPEN'',
             ''Ceiling: Crack'', ''Priority: HIGH | Status: OPEN'',
             ''Floor: Tile loose'', ''Priority: MEDIUM | Status: RESOLVED'',
             ''Socket: Plate loose'', ''Priority: LOW | Status: IN PROGRESS''])"
proof -
  have cap: "first_page_capacity a4_pageHeight = 6"
    by (simp add: first_page_capacity_def a4_pageHeight_def)
  have r: "rooms seven_snag_report =
      [\<lparr>room_id = ''room-6-5'', room_name = ''Kitchen'', snags = seven_snags\<rparr>]"
    by (simp add: seven_snag_report_def)
  have n: "length seven_snags = 7"
    by (simp add: seven_snags_def)
  have all: "all_snags seven_snag_report = seven_snags"
    by (simp add: all_snags_def r)
  from document_in_room_order [of a4_pageWidth a4_pageHeight seven_snag_report]
  obtain pdf where pdf: "handleExportPDF True a4_pageWidth a4_pageHeight seven_snag_report = Some pdf"
    and lines: "lines_at (margin + 8) (concat (pages_of pdf)) =
       concat (map (\<lambda>snag.
           [(if location snag = [] then ''No location'' else location snag) @ '': '' @
            (if description snag = [] then ''No description'' else description snag),
            ''Priority: '' @
            (case priority snag of
               Critical \<Rightarrow> ''CRITICAL'' | High \<Rightarrow> ''HIGH'' | Medium \<Rightarrow> ''MEDIUM'' | Low \<Rightarrow> ''LOW'') @
            '' | Status: '' @
            (case snag_status snag of
               Open \<Rightarrow> ''OPEN'' | In_progress \<Rightarrow> ''IN PROGRESS'' | Resolved \<Rightarrow> ''RESOLVED'')])
         (all_snags seven_snag_report))"
    and pages: "\<forall>room. rooms seven_snag_report = [room] \<longrightarrow>
        (1 < length (pages_of pdf) \<longleftrightarrow> first_page_capacity a4_pageHeight < length (snags room))"
    by blast
  from pages r cap n have more: "1 < length (pages_of pdf)" by simp
  from lines have "lines_at (margin + 8) (concat (pages_of pdf)) =
            [''Under sink: Leak'', ''Priority: CRITICAL | Status: OPEN'',
             ''No location: Paint splashes'', ''Priority: LOW | Status: RESOLVED'',
             ''Door: No description'', ''Priority: HIGH | Status: IN PROGRESS'',
             ''Window: Scratches on glass'', ''Priority: MEDIUM | Status: OPEN'',
             ''Ceiling: Crack'', ''Priority: HIGH | Status: OPEN'',
             ''Floor: Tile loose'', ''Priority: MEDIUM | Status: RESOLVED'',
             ''Socket: Plate loose'', ''Priority: LOW | Status: IN PROGRESS'']"
    by (simp add: all seven_snags_def)
  with pdf cap more show ?thesis by blast
qed

subsection \<open>The end-to-end example\<close>

lemma pages_of_no_break: "AddPage \<notin> set cs \<Longrightarrow> pages_of cs = [cs]"
  using pages_of_append [of cs "[]"] by simp

lemma texts_of_pages: "texts_of (concat (pages_of cs)) = texts_of cs"
  unfolding concat_pages_of texts_of_def by (induction cs) auto

lemma kitchen_rooms:
  "filter (\<lambda>room. snags room \<noteq> []) (rooms (kitchen_example now today clock idNow createdNow)) =
     [\<lparr>room_id = ''room-6-'' @ decimal now, room_name = ''Kitchen'',
       snags = [\<lparr>snag_id = ''snag-'' @ decimal idNow, location = ''Under sink'',
                 description = ''Leak'', priority = Critical, snag_status = Open,
                 photos = [], snag_createdAt = createdNow\<rparr>]\<rparr>]"
  by (simp add: kitchen_example_def handleUpdateSnag_def handleAddSnag_def initialReport_def
        newReport_def default_rooms_def DEFAULT_ROOMS_def upt_rec decimal_digit decimal_more
        digit_char_def newSnag_def merge_updates_def no_updates_def)

lemma kitchen_all_snags:
  "all_snags (kitchen_example now today clock idNow createdNow) =
     [\<lparr>snag_id = ''snag-'' @ decimal idNow, location = ''Under sink'',
       description = ''Leak'', priority = Critical, snag_status = Open,
       photos = [], snag_createdAt = createdNow\<rparr>]"
proof -
  have "all_snags (kitchen_example now today clock idNow createdNow) =
     concat (map snags (filter (\<lambda>room. snags room \<noteq> [])
       (rooms (kitchen_example now today clock idNow createdNow))))"
    by (simp only: all_snags_def concat_snags_skip_empty)
  then show ?thesis by (simp only: kitchen_rooms) simp
qed

lemma kitchen_counts:
  "totalSnags (kitchen_example now today clock idNow createdNow) = 1"
  "openSnags (kitchen_example now today clock idNow createdNow) = 1"
  "criticalSnags (kitchen_example now today clock idNow createdNow) = 1"
  by (simp_all add: totalSnags_recount openSnags_recount criticalSnags_recount kitchen_all_snags)

lemma kitchen_detail:
  "detail_line \<lparr>snag_id = i, location = ''Under sink'',
       description = ''Leak'', priority = Critical, snag_status = Open,
       photos = [], snag_createdAt = c\<rparr> = ''Priority: CRITICAL | Status: OPEN''"
  by (simp add: detail_line_def toUpperCase_def upper_char_def)

lemma kitchen_body:
  "fst (draw_rooms a4_pageHeight (rooms (kitchen_example now today clock idNow createdNow)) 178) =
     [SetFont ''helvetica'' ''bold'', SetFontSize 14, SetTextColor 0 61 130,
      Text ''Kitchen'' 15 178,
      SetFont ''helvetica'' ''normal'', SetFontSize 10, SetTextColor 0 0 0,
      SetFillColor 220 38 38,
      Circle 17 185 2 ''F'',
      Text ''Under sink: Leak'' 23 186,
      SetTextColor 100 100 100,
      Text ''Priority: CRITICAL | Status: OPEN'' 23 192,
      SetTextColor 0 0 0]"
proof -
  let ?r = "kitchen_example now today clock idNow createdNow"
  have "draw_rooms a4_pageHeight (rooms ?r) 178 =
          draw_rooms a4_pageHeight (filter (\<lambda>room. snags room \<noteq> []) (rooms ?r)) 178"
    by (simp only: draw_rooms_skip_empty)
  then show ?thesis
    by (simp add: kitchen_rooms draw_rooms_calls_Cons draw_rooms_Nil draw_room_calls
          draw_snags_calls_Cons draw_snags_Nil draw_snag_calls heading_calls_def snag_entry_def
          summary_line_def or_else_def kitchen_detail a4_pageHeight_def margin_def)
qed

lemma kitchen_pdf:
  "handleExportPDF True a4_pageWidth a4_pageHeight (kitchen_example now today clock idNow createdNow) =
     Some (fst (title_page a4_pageWidth (kitchen_example now today clock idNow createdNow)) @
           [SetFont ''helvetica'' ''bold'', SetFontSize 14, SetTextColor 0 61 130,
            Text ''Kitchen'' 15 178,
            SetFont ''helvetica'' ''normal'', SetFontSize 10, SetTextColor 0 0 0,
            SetFillColor 220 38 38,
            Circle 17 185 2 ''F'',
            Text ''Under sink: Leak'' 23 186,
            SetTextColor 100 100 100,
            Text ''Priority: CRITICAL | Status: OPEN'' 23 192,
            SetTextColor 0 0 0])"
  by (simp add: export_document title_page_y kitchen_body)

text \<open>
  Claim C3, as the code has it. A new report is created and opened in the editor, a snag
  is added to its Kitchen and given location "Under sink", description "Leak", priority
  critical and status open. The three counts are 1, 1 and 1. The document generated on
  A4 has one page; after the title page's calls it has the heading "Kitchen" at y = 178
  and below it one entry: a marker filled with the red (220, 38, 38), the summary line
  "Under sink: Leak" at y = 186 and the second line "Priority: CRITICAL | Status: OPEN"
  at y = 192. (Priority and status are upper-cased and the hyphens of the status are
  replaced by spaces: no status has more than one, \<open>status_hyphens_replaced\<close>.)
\<close>

theorem kitchen_example_document:
  "totalSnags (kitchen_example now today clock idNow createdNow) = 1 \<and>
   openSnags (kitchen_example now today clock idNow createdNow) = 1 \<and>
   criticalSnags (kitchen_example now today clock idNow createdNow) = 1 \<and>
   map_option pages_of
     (handleExportPDF True a4_pageWidth a4_pageHeight (kitchen_example now today clock idNow createdNow)) =
     Some [fst (title_page a4_pageWidth (kitchen_example now today clock idNow createdNow)) @
           [SetFont ''helvetica'' ''bold'', SetFontSize 14, SetTextColor 0 61 130,
            Text ''Kitchen'' 15 178,
            SetFont ''helvetica'' ''normal'', SetFontSize 10, SetTextColor 0 0 0,
            SetFillColor 220 38 38,
            Circle 17 185 2 ''F'',
            Text ''Under sink: Leak'' 23 186,
            SetTextColor 100 100 100,
            Text ''Priority: CRITICAL | Status: OPEN'' 23 192,
            SetTextColor 0 0 0]]"
proof -
  let ?r = "kitchen_example now today clock idNow createdNow"
  let ?body = "[SetFont ''helvetica'' ''bold'', SetFontSize 14, SetTextColor 0 61 130,
            Text ''Kitchen'' 15 178,
            SetFont ''helvetica'' ''normal'', SetFontSize 10, SetTextColor 0 0 0,
            SetFillColor 220 38 38,
            Circle 17 185 2 ''F'',
            Text ''Under sink: Leak'' 23 186,
            SetTextColor 100 100 100,
            Text ''Priority: CRITICAL | Status: OPEN'' 23 192,
            SetTextColor 0 0 0]"
  have "pages_of (fst (title_page a4_pageWidth ?r) @ ?body) = [fst (title_page a4_pageWidth ?r) @ ?body]"
    by (rule pages_of_no_break) (simp add: no_break_title_page)
  then show ?thesis
    by (simp add: kitchen_counts kitchen_pdf)
qed

text \<open>
  Claim C3 as stated has the second line read "CRITICAL | OPEN". No text of the
  document generated for the example reads so; the line carries the labels
  \<open>Priority:\<close> and \<open>Status:\<close>.
\<close>

theorem kitchen_example_counterexample:
  "\<exists>pdf. handleExportPDF True a4_pageWidth a4_pageHeight (kitchen_example 1000 ''2024-01-01'' (\<lambda>idx. 1500) 2000 2000)
           = Some pdf \<and>
         ''CRITICAL | OPEN'' \<notin> set (texts_of (concat (pages_of pdf))) \<and>
         ''Priority: CRITICAL | Status: OPEN'' \<in> set (texts_of (concat (pages_of pdf)))"
proof -
  let ?r = "kitchen_example 1000 ''2024-01-01'' (\<lambda>idx. 1500) 2000 2000"
  have fields: "propertyAddress ?r = []" "plotNumber ?r = []" "clientName ?r = []"
     "developerName ?r = []" "inspectionDate ?r = ''2024-01-01''"
    by (simp_all add: kitchen_example_def handleUpdateSnag_def handleAddSnag_def initialReport_def
          newReport_def)
  have d1: "decimal 1 = ''1''" "decimal (Suc 0) = ''1''"
    by (subst decimal.simps, simp add: digit_char_def)+
  have cover: "texts_of (fst (title_page a4_pageWidth ?r)) =
     [''Snagging List Report'', ''Professional New Build Defects Report'', ''Property Details'',
      ''Address: Not specified'', ''Plot Number: Not specified'', ''Client: Not specified'',
      ''Developer: Not specified'', ''Inspection Date: 2024-01-01'', ''Summary'',
      ''Total Snags: 1'', ''Open Snags: 1'', ''Critical Items: 1'']"
    by (simp add: title_page_def texts_of_def kitchen_counts fields or_else_def d1)
  have "texts_of (fst (title_page a4_pageWidth ?r) @
           [SetFont ''helvetica'' ''bold'', SetFontSize 14, SetTextColor 0 61 130,
            Text ''Kitchen'' 15 178,
            SetFont ''helvetica'' ''normal'', SetFontSize 10, SetTextColor 0 0 0,
            SetFillColor 220 38 38,
            Circle 17 185 2 ''F'',
            Text ''Under sink: Leak'' 23 186,
            SetTextColor 100 100 100,
            Text ''Priority: CRITICAL | Status: OPEN'' 23 192,
            SetTextColor 0 0 0]) =
        texts_of (fst (title_page a4_pageWidth ?r)) @
          [''Kitchen'', ''Under sink: Leak'', ''Priority: CRITICAL | Status: OPEN'']"
    by (simp add: texts_of_def)
  then show ?thesis
    by (simp add: kitchen_pdf texts_of_pages cover)
qed

end
